theory Spec2Isabelle
  imports
    Main
    "HOL-Library.Sublist"
    "HOL-Library.List_Lexorder"
    "HOL-Library.Product_Lexorder"
begin

section \<open>Python strings\<close>

text \<open>
  A Python \<^verbatim>\<open>str\<close> is a sequence of Unicode code points, so a string is a list of
  natural numbers (\<open>length\<close> counts code points, as \<^verbatim>\<open>len\<close> does). \<open>ustr\<close> writes
  an ASCII literal.
\<close>

type_synonym ustring = "nat list"

definition ustr :: "string \<Rightarrow> ustring" where
  "ustr s = map of_char s"

text \<open>
  The character properties that \<^verbatim>\<open>str.isalnum\<close>, \<^verbatim>\<open>str.isspace\<close>, \<^verbatim>\<open>str.isdigit\<close>,
  \<^verbatim>\<open>str.lower\<close> and the classes \<^verbatim>\<open>\w\<close>, \<^verbatim>\<open>\s\<close> of \<^verbatim>\<open>re\<close> read belong to the
  interpreter's Unicode database, not to the repository. The functions below take the
  database as a parameter: one predicate per property, and the full lowercase mapping of
  a code point (one to three code points).
\<close>

record unicode =
  isalnum :: "nat \<Rightarrow> bool"
  isspace :: "nat \<Rightarrow> bool"
  isdigit :: "nat \<Rightarrow> bool"
  tolower_full :: "nat \<Rightarrow> nat list"
  is_cased :: "nat \<Rightarrow> bool"
  is_case_ignorable :: "nat \<Rightarrow> bool"

text \<open>
  \<^verbatim>\<open>str.lower\<close> maps every code point through the full lowercase mapping, but for the
  capital sigma U+03A3 (931), which becomes the final sigma U+03C2 (962) when a cased
  letter comes before it and none after it (case-ignorable characters skipped), and
  the small sigma U+03C3 (963) otherwise.
\<close>

definition final_sigma :: "unicode \<Rightarrow> ustring \<Rightarrow> ustring \<Rightarrow> bool" where
  "final_sigma U seen rest =
     ((case dropWhile (is_case_ignorable U) (rev seen) of
         [] \<Rightarrow> False
       | c # _ \<Rightarrow> is_cased U c) \<and>
      (case dropWhile (is_case_ignorable U) rest of
         [] \<Rightarrow> True
       | c # _ \<Rightarrow> \<not> is_cased U c))"

fun do_lower :: "unicode \<Rightarrow> ustring \<Rightarrow> ustring \<Rightarrow> ustring" where
  "do_lower U seen [] = []"
| "do_lower U seen (c # cs) =
     (if c = 931 then [if final_sigma U seen cs then 962 else 963]
      else tolower_full U c) @ do_lower U (seen @ [c]) cs"

definition str_lower :: "unicode \<Rightarrow> ustring \<Rightarrow> ustring" where
  "str_lower U s = do_lower U [] s"

text \<open>\<^verbatim>\<open>s.strip()\<close>: leading and trailing whitespace removed.\<close>

definition str_strip :: "unicode \<Rightarrow> ustring \<Rightarrow> ustring" where
  "str_strip U s = rev (dropWhile (isspace U) (rev (dropWhile (isspace U) s)))"

text \<open>\<^verbatim>\<open>s.isdigit()\<close>: at least one character, and every character a digit.\<close>

definition str_isdigit :: "unicode \<Rightarrow> ustring \<Rightarrow> bool" where
  "str_isdigit U s = (s \<noteq> [] \<and> list_all (isdigit U) s)"

text \<open>\<^verbatim>\<open>any(c.isalnum() for c in s)\<close>\<close>

definition any_isalnum :: "unicode \<Rightarrow> ustring \<Rightarrow> bool" where
  "any_isalnum U s = list_ex (isalnum U) s"

text \<open>\<^verbatim>\<open>t in s\<close> on strings: \<open>t\<close> occurs in \<open>s\<close> as a contiguous run.\<close>

fun str_contains :: "ustring \<Rightarrow> ustring \<Rightarrow> bool" where
  "str_contains [] t = (t = [])"
| "str_contains (c # s) t = (prefix t (c # s) \<or> str_contains s t)"

text \<open>
  \<^verbatim>\<open>re.sub(re.escape(t), '', s, 1)\<close>: the leftmost occurrence of the literal \<open>t\<close> is
  removed from \<open>s\<close>; \<open>s\<close> is returned as it is when \<open>t\<close> does not occur.
\<close>

fun re_sub_first :: "ustring \<Rightarrow> ustring \<Rightarrow> ustring" where
  "re_sub_first t [] = []"
| "re_sub_first t (c # s) =
     (if prefix t (c # s) then drop (length t) (c # s) else c # re_sub_first t s)"

text \<open>
  \<^verbatim>\<open>re.sub(cls, '', s)\<close> for a pattern \<open>cls\<close> that matches one character: the scan
  goes left to right and drops every character the class matches.
\<close>

fun re_sub_class :: "(nat \<Rightarrow> bool) \<Rightarrow> ustring \<Rightarrow> ustring" where
  "re_sub_class cls [] = []"
| "re_sub_class cls (c # s) =
     (if cls c then re_sub_class cls s else c # re_sub_class cls s)"

text \<open>
  The classes of \<^verbatim>\<open>re\<close> on \<^verbatim>\<open>str\<close> patterns: \<^verbatim>\<open>\w\<close> is an alphanumeric character or
  the underscore (95), \<^verbatim>\<open>\s\<close> is a whitespace character.
\<close>

definition re_word :: "unicode \<Rightarrow> nat \<Rightarrow> bool" where
  "re_word U c = (isalnum U c \<or> c = 95)"

definition re_space :: "unicode \<Rightarrow> nat \<Rightarrow> bool" where
  "re_space U c = isspace U c"

text \<open>\<^verbatim>\<open>sep.join(xs)\<close>\<close>

fun str_join :: "ustring \<Rightarrow> ustring list \<Rightarrow> ustring" where
  "str_join sep [] = []"
| "str_join sep [x] = x"
| "str_join sep (x # y # ys) = x @ sep @ str_join sep (y # ys)"

text \<open>\<^verbatim>\<open>str(i)\<close> for an integer: decimal digits, a minus sign (45) when negative.\<close>

function str_nat :: "nat \<Rightarrow> ustring" where
  "str_nat n = (if n < 10 then [48 + n] else str_nat (n div 10) @ [48 + n mod 10])"
  by pat_completeness auto
termination
  by (relation "measure (\<lambda>n. n)") auto

declare str_nat.simps [simp del]

definition str_int :: "int \<Rightarrow> ustring" where
  "str_int i = (if i < 0 then 45 # str_nat (nat (- i)) else str_nat (nat i))"

text \<open>
  An instance of the database for running examples: the properties of the code points of
  ASCII and of the Russian alphabet (U+0410 to U+044F, U+0401, U+0451). It is used on
  strings of these code points only.
\<close>

definition ascii_upper :: "nat \<Rightarrow> bool" where
  "ascii_upper c = (65 \<le> c \<and> c \<le> 90)"

definition ascii_lower :: "nat \<Rightarrow> bool" where
  "ascii_lower c = (97 \<le> c \<and> c \<le> 122)"

definition ascii_digit :: "nat \<Rightarrow> bool" where
  "ascii_digit c = (48 \<le> c \<and> c \<le> 57)"

definition cyr_upper :: "nat \<Rightarrow> bool" where
  "cyr_upper c = ((1040 \<le> c \<and> c \<le> 1071) \<or> c = 1025)"

definition cyr_lower :: "nat \<Rightarrow> bool" where
  "cyr_lower c = ((1072 \<le> c \<and> c \<le> 1103) \<or> c = 1105)"

definition ru_letter :: "nat \<Rightarrow> bool" where
  "ru_letter c = (ascii_upper c \<or> ascii_lower c \<or> cyr_upper c \<or> cyr_lower c)"

definition ru_tolower :: "nat \<Rightarrow> nat list" where
  "ru_tolower c =
     (if ascii_upper c then [c + 32]
      else if 1040 \<le> c \<and> c \<le> 1071 then [c + 32]
      else if c = 1025 then [1105]
      else [c])"

definition ru :: unicode where
  "ru = \<lparr> isalnum = (\<lambda>c. ru_letter c \<or> ascii_digit c),
          isspace = (\<lambda>c. (9 \<le> c \<and> c \<le> 13) \<or> (28 \<le> c \<and> c \<le> 32)),
          isdigit = ascii_digit,
          tolower_full = ru_tolower,
          is_cased = ru_letter,
          is_case_ignorable = (\<lambda>c. c \<in> {39, 46, 58, 94, 96}) \<rparr>"

section \<open>Tokens and sentences\<close>

text \<open>
  \<^verbatim>\<open>MorphologicalTokenDTO\<close>, \<^verbatim>\<open>ConlluToken\<close> and \<^verbatim>\<open>ConlluSentence\<close>. The fields
  keep the attributes' names behind a prefix (\<open>lemma\<close> and \<open>text\<close> are reserved words).
\<close>

record MorphologicalTokenDTO =
  dto_lemma :: ustring
  dto_pos :: ustring
  dto_tags :: ustring

definition MorphologicalTokenDTO_init ::
    "ustring \<Rightarrow> ustring \<Rightarrow> ustring \<Rightarrow> MorphologicalTokenDTO" where
  "MorphologicalTokenDTO_init l p t = \<lparr> dto_lemma = l, dto_pos = p, dto_tags = t \<rparr>"

text \<open>The constructor's defaults: \<^verbatim>\<open>MorphologicalTokenDTO()\<close>.\<close>

definition MorphologicalTokenDTO_default :: MorphologicalTokenDTO where
  "MorphologicalTokenDTO_default = MorphologicalTokenDTO_init [] [] []"

record ConlluToken =
  tok_text :: ustring
  morphological_parameters :: MorphologicalTokenDTO
  position :: int

definition ConlluToken_init :: "ustring \<Rightarrow> ConlluToken" where
  "ConlluToken_init t =
     \<lparr> tok_text = t,
       morphological_parameters = MorphologicalTokenDTO_default,
       position = 0 \<rparr>"

definition set_morphological_parameters ::
    "ConlluToken \<Rightarrow> MorphologicalTokenDTO \<Rightarrow> ConlluToken" where
  "set_morphological_parameters tok parameters =
     tok \<lparr> morphological_parameters := parameters \<rparr>"

definition get_conllu_text :: "ConlluToken \<Rightarrow> bool \<Rightarrow> ustring" where
  "get_conllu_text tok include_morphological_tags =
     (let pos_field = str_int (position tok);
          txt_field = tok_text tok;
          lemma_field = dto_lemma (morphological_parameters tok);
          upos = dto_pos (morphological_parameters tok);
          xpos = ustr ''_'';
          feats = (if include_morphological_tags \<and> dto_tags (morphological_parameters tok) \<noteq> []
                   then dto_tags (morphological_parameters tok)
                   else ustr ''_'');
          head = ustr ''0'';
          deprel = ustr ''root'';
          deps = ustr ''_'';
          misc = ustr ''_''
      in str_join [9]
           [pos_field, txt_field, lemma_field, upos, xpos, feats, head, deprel, deps, misc])"

definition get_cleaned :: "unicode \<Rightarrow> ConlluToken \<Rightarrow> ustring" where
  "get_cleaned U tok =
     re_sub_class (\<lambda>c. \<not> (re_word U c \<or> re_space U c)) (str_lower U (tok_text tok))"

record ConlluSentence =
  sent_position :: int
  sent_text :: ustring
  sent_tokens :: "ConlluToken list"

definition format_tokens :: "ConlluSentence \<Rightarrow> bool \<Rightarrow> ustring" where
  "format_tokens s include_morphological_tags =
     str_join [10] (map (\<lambda>tok. get_conllu_text tok include_morphological_tags) (sent_tokens s))"

definition sentence_get_conllu_text :: "ConlluSentence \<Rightarrow> bool \<Rightarrow> ustring" where
  "sentence_get_conllu_text s include_morphological_tags =
     ustr ''# sent_id = '' @ str_int (sent_position s) @ [10] @
     ustr ''# text = '' @ sent_text s @ [10] @
     format_tokens s include_morphological_tags @ [10]"

text \<open>
  The cleaning rule as the specification words it: lowercase, then keep the characters
  that are alphanumeric or whitespace. It is compared with \<open>get_cleaned\<close> below.
\<close>

definition spec_cleaned :: "unicode \<Rightarrow> ustring \<Rightarrow> ustring" where
  "spec_cleaned U s = filter (\<lambda>c. isalnum U c \<or> isspace U c) (str_lower U s)"


section \<open>The tag converter\<close>

text \<open>
  The exceptions the code can raise: \<^verbatim>\<open>KeyError\<close> with the missing key, and
  \<^verbatim>\<open>TypeError\<close> when \<^verbatim>\<open>re.search\<close> returns \<^verbatim>\<open>None\<close> and the result is subscripted.
  \<open>UnknownTagError\<close> is the error the specification names; the source neither defines
  nor raises it.
\<close>

datatype py_error = KeyError ustring | TypeError | UnknownTagError

text \<open>
  \<^verbatim>\<open>MystemTagConverter\<close> inherits its state from the base class \<^verbatim>\<open>TagConverter\<close> of
  \<^verbatim>\<open>core_utils.article.ud\<close>, which is not among the sources: the loaded mapping table
  \<^verbatim>\<open>_tag_mapping\<close> (category name to native code to normalized value) and the category
  names \<^verbatim>\<open>pos\<close>, \<^verbatim>\<open>case\<close>, \<^verbatim>\<open>number\<close>, \<^verbatim>\<open>gender\<close>, \<^verbatim>\<open>animacy\<close>, \<^verbatim>\<open>tense\<close>. They are
  the fields of the converter, taken as parameters.
\<close>

record TagConverter =
  tag_mapping :: "ustring \<rightharpoonup> (ustring \<rightharpoonup> ustring)"
  pos_cat :: ustring
  case_cat :: ustring
  number_cat :: ustring
  gender_cat :: ustring
  animacy_cat :: ustring
  tense_cat :: ustring

text \<open>
  The character classes of the two patterns: \<^verbatim>\<open>[A-Z]\<close>, and the range of the small
  Cyrillic letters from U+0430 to U+044F.
\<close>

definition re_AZ :: "nat \<Rightarrow> bool" where
  "re_AZ c = (65 \<le> c \<and> c \<le> 90)"

definition re_cyr :: "nat \<Rightarrow> bool" where
  "re_cyr c = (1072 \<le> c \<and> c \<le> 1103)"

text \<open>
  \<^verbatim>\<open>re.search(cls+, s)\<close>: the leftmost maximal run of characters of the class, \<open>None\<close>
  when there is none.
\<close>

definition re_search_plus :: "(nat \<Rightarrow> bool) \<Rightarrow> ustring \<Rightarrow> ustring option" where
  "re_search_plus cls s =
     (case dropWhile (\<lambda>c. \<not> cls c) s of
        [] \<Rightarrow> None
      | c # r \<Rightarrow> Some (takeWhile cls (c # r)))"

text \<open>
  \<^verbatim>\<open>re.findall(cls+, s)\<close>: all maximal runs, left to right; \<open>cur\<close> is the run being
  read.
\<close>

fun re_findall_plus :: "(nat \<Rightarrow> bool) \<Rightarrow> ustring \<Rightarrow> ustring \<Rightarrow> ustring list" where
  "re_findall_plus cls cur [] = (if cur = [] then [] else [cur])"
| "re_findall_plus cls cur (c # s) =
     (if cls c then re_findall_plus cls (cur @ [c]) s
      else (if cur = [] then [] else [cur]) @ re_findall_plus cls [] s)"

definition convert_pos :: "TagConverter \<Rightarrow> ustring \<Rightarrow> py_error + ustring" where
  "convert_pos C tags =
     (case re_search_plus re_AZ tags of
        None \<Rightarrow> Inl TypeError
      | Some code \<Rightarrow>
          (case tag_mapping C (pos_cat C) of
             None \<Rightarrow> Inl (KeyError (pos_cat C))
           | Some m \<Rightarrow>
               (case m code of
                  None \<Rightarrow> Inl (KeyError code)
                | Some v \<Rightarrow> Inr v)))"

text \<open>The precedence order of the loop over the categories.\<close>

definition categories :: "TagConverter \<Rightarrow> ustring list" where
  "categories C = [case_cat C, number_cat C, gender_cat C, animacy_cat C, tense_cat C]"

text \<open>
  \<open>format_tags\<close> is a dictionary read in insertion order: a list of pairs with distinct
  keys. The inner loop looks \<open>tag\<close> up in each category in turn and stops at the first
  category that maps it and has no value yet.
\<close>

fun assign_tag ::
    "TagConverter \<Rightarrow> ustring \<Rightarrow> ustring list \<Rightarrow> (ustring \<times> ustring) list \<Rightarrow>
     py_error + (ustring \<times> ustring) list" where
  "assign_tag C tag [] format_tags = Inr format_tags"
| "assign_tag C tag (category # cats) format_tags =
     (case tag_mapping C category of
        None \<Rightarrow> Inl (KeyError category)
      | Some m \<Rightarrow>
          (case m tag of
             None \<Rightarrow> assign_tag C tag cats format_tags
           | Some v \<Rightarrow>
               if category \<in> set (map fst format_tags)
               then assign_tag C tag cats format_tags
               else Inr (format_tags @ [(category, v)])))"

fun assign_tags ::
    "TagConverter \<Rightarrow> ustring list \<Rightarrow> (ustring \<times> ustring) list \<Rightarrow>
     py_error + (ustring \<times> ustring) list" where
  "assign_tags C [] format_tags = Inr format_tags"
| "assign_tags C (tag # tag_list) format_tags =
     (case assign_tag C tag (categories C) format_tags of
        Inl e \<Rightarrow> Inl e
      | Inr format_tags' \<Rightarrow> assign_tags C tag_list format_tags')"

definition render_feat :: "ustring \<times> ustring \<Rightarrow> ustring" where
  "render_feat p = fst p @ ustr ''='' @ snd p"

definition convert_morphological_tags :: "TagConverter \<Rightarrow> ustring \<Rightarrow> py_error + ustring" where
  "convert_morphological_tags C tags =
     (case assign_tags C (re_findall_plus re_cyr [] tags) [] of
        Inl e \<Rightarrow> Inl e
      | Inr format_tags \<Rightarrow> Inr (str_join (ustr ''|'') (map render_feat (sort format_tags))))"





section \<open>The alignment of the analyzer's records with the sentences\<close>

text \<open>
  A record of the analyzer is a dictionary with the key \<^verbatim>\<open>text\<close> and, for words, the
  key \<^verbatim>\<open>analysis\<close>: a list of candidates, each with \<^verbatim>\<open>lex\<close> and \<^verbatim>\<open>gr\<close>. \<open>None\<close> is
  an absent key.
\<close>

record Analysis =
  lex :: ustring
  gr :: ustring

record MystemToken =
  mt_text :: ustring
  mt_analysis :: "Analysis list option"

text \<open>The record \<^verbatim>\<open>{'text': '.'}\<close> appended to every sentence.\<close>

definition terminal :: MystemToken where
  "terminal = \<lparr> mt_text = ustr ''.'', mt_analysis = None \<rparr>"

text \<open>
  The loop \<^verbatim>\<open>for token in result\<close> for one sentence. \<open>result\<close> is the generator over
  the analyzer's records, shared by all sentences: the function returns the sentence's
  \<open>tokens\<close> and what is left of the generator. A generator that is exhausted stays so.
\<close>

fun collect ::
    "unicode \<Rightarrow> ustring \<Rightarrow> MystemToken list \<Rightarrow> MystemToken list \<Rightarrow>
     MystemToken list \<times> MystemToken list" where
  "collect U sentence [] tokens = (tokens, [])"
| "collect U sentence (token # result) tokens =
     (if \<not> str_contains sentence (mt_text token) then collect U sentence result tokens
      else
        let sentence_subbed = re_sub_first (mt_text token) sentence;
            tokens' = (if any_isalnum U (mt_text token) then tokens @ [token] else tokens)
        in if \<not> any_isalnum U sentence_subbed then (tokens', result)
           else collect U sentence result tokens')"

text \<open>The morphology of one record: from its first candidate, or by the fallback.\<close>

definition morphology ::
    "unicode \<Rightarrow> TagConverter \<Rightarrow> MystemToken \<Rightarrow> py_error + MorphologicalTokenDTO" where
  "morphology U C token =
     (case mt_analysis token of
        Some (a # _) \<Rightarrow>
          (case convert_pos C (gr a) of
             Inl e \<Rightarrow> Inl e
           | Inr pos \<Rightarrow>
               (case convert_morphological_tags C (gr a) of
                  Inl e \<Rightarrow> Inl e
                | Inr tags \<Rightarrow> Inr (MorphologicalTokenDTO_init (lex a) pos tags)))
      | _ \<Rightarrow>
          Inr (MorphologicalTokenDTO_init (mt_text token)
                 (if str_strip U (mt_text token) = ustr ''.'' then ustr ''PUNCT''
                  else if str_isdigit U (mt_text token) then ustr ''NUM''
                  else ustr ''X'')
                 []))"

text \<open>
  The loop \<^verbatim>\<open>for idx_token, token in enumerate(tokens, start=1)\<close>; an exception leaves
  the loop and the function.
\<close>

fun make_tokens ::
    "unicode \<Rightarrow> TagConverter \<Rightarrow> int \<Rightarrow> MystemToken list \<Rightarrow> py_error + ConlluToken list" where
  "make_tokens U C idx_token [] = Inr []"
| "make_tokens U C idx_token (token # tokens) =
     (case morphology U C token of
        Inl e \<Rightarrow> Inl e
      | Inr m \<Rightarrow>
          (case make_tokens U C (idx_token + 1) tokens of
             Inl e \<Rightarrow> Inl e
           | Inr conllu_tokens \<Rightarrow>
               Inr (set_morphological_parameters
                      ((ConlluToken_init (mt_text token)) \<lparr> position := idx_token \<rparr>) m
                    # conllu_tokens)))"

text \<open>
  \<^verbatim>\<open>_process\<close>. The sentences (\<^verbatim>\<open>split_by_sentence(text)\<close>) and the analyzer's records
  (\<^verbatim>\<open>self._mystem.analyze(text)\<close>) come from outside the repository and are the inputs.
\<close>

fun process_sentences ::
    "unicode \<Rightarrow> TagConverter \<Rightarrow> int \<Rightarrow> ustring list \<Rightarrow> MystemToken list \<Rightarrow>
     py_error + ConlluSentence list" where
  "process_sentences U C idx_sent [] result = Inr []"
| "process_sentences U C idx_sent (sentence # sentences) result =
     (case collect U sentence result [] of
        (tokens, result') \<Rightarrow>
          (case make_tokens U C 1 (tokens @ [terminal]) of
             Inl e \<Rightarrow> Inl e
           | Inr conllu_tokens \<Rightarrow>
               (case process_sentences U C (idx_sent + 1) sentences result' of
                  Inl e \<Rightarrow> Inl e
                | Inr conllu_sentences \<Rightarrow>
                    Inr (\<lparr> sent_position = idx_sent, sent_text = sentence,
                           sent_tokens = conllu_tokens \<rparr> # conllu_sentences))))"

definition process ::
    "unicode \<Rightarrow> TagConverter \<Rightarrow> ustring list \<Rightarrow> MystemToken list \<Rightarrow>
     py_error + ConlluSentence list" where
  "process U C sentences result = process_sentences U C 0 sentences result"

text \<open>
  The groups \<open>tokens\<close> of \<^verbatim>\<open>_process\<close>, one for each sentence, as they are before the
  tokens are built: the alignment alone.
\<close>

fun groups :: "unicode \<Rightarrow> ustring list \<Rightarrow> MystemToken list \<Rightarrow> MystemToken list list" where
  "groups U [] result = []"
| "groups U (sentence # sentences) result =
     (case collect U sentence result [] of
        (tokens, result') \<Rightarrow> (tokens @ [terminal]) # groups U sentences result')"

text \<open>
  The alignment of one sentence as the specification words it: the text that remains is a
  running copy of the sentence, a record is tested against it, its first occurrence is
  removed from it, and the loop stops when it has no alphanumeric character left.
\<close>

fun spec_collect ::
    "unicode \<Rightarrow> ustring \<Rightarrow> MystemToken list \<Rightarrow> MystemToken list \<Rightarrow>
     MystemToken list \<times> MystemToken list" where
  "spec_collect U remaining [] tokens = (tokens, [])"
| "spec_collect U remaining (token # result) tokens =
     (if \<not> str_contains remaining (mt_text token) then spec_collect U remaining result tokens
      else
        let remaining' = re_sub_first (mt_text token) remaining;
            tokens' = (if any_isalnum U (mt_text token) then tokens @ [token] else tokens)
        in if \<not> any_isalnum U remaining' then (tokens', result)
           else spec_collect U remaining' result tokens')"

section \<open>Example data\<close>

text \<open>A sentence of two finished tokens, and a token with punctuation and capitals.\<close>

definition tok_cat :: ConlluToken where
  "tok_cat = \<lparr> tok_text = ustr ''Cat'',
               morphological_parameters =
                 MorphologicalTokenDTO_init (ustr ''cat'') (ustr ''NOUN'') (ustr ''Case=Nom''),
               position = 1 \<rparr>"

definition tok_dot :: ConlluToken where
  "tok_dot = \<lparr> tok_text = ustr ''.'',
               morphological_parameters =
                 MorphologicalTokenDTO_init (ustr ''.'') (ustr ''PUNCT'') [],
               position = 2 \<rparr>"

definition sent_cat :: ConlluSentence where
  "sent_cat =
     \<lparr> sent_position = 0, sent_text = ustr ''Cat.'', sent_tokens = [tok_cat, tok_dot] \<rparr>"

definition tok_mixed :: ConlluToken where
  "tok_mixed = ConlluToken_init (ustr ''A_b, C!'')"

text \<open>
  A mapping table with the six categories. The native codes are Cyrillic and written as
  code points: \<open>[1080, 1084]\<close> is the code of the nominative, which this table maps in
  the gender category too; \<open>gr_noun\<close> is the tag string of an inanimate masculine noun in
  the nominative singular.
\<close>

definition C0 :: TagConverter where
  "C0 = \<lparr> tag_mapping = map_of
             [(ustr ''POS'', map_of [(ustr ''S'', ustr ''NOUN''), (ustr ''V'', ustr ''VERB'')]),
              (ustr ''Case'', map_of [([1080, 1084], ustr ''Nom'')]),
              (ustr ''Number'', map_of [([1077, 1076], ustr ''Sing'')]),
              (ustr ''Gender'',
                 map_of [([1084, 1091, 1078], ustr ''Masc''), ([1080, 1084], ustr ''Fem'')]),
              (ustr ''Animacy'', map_of [([1085, 1077, 1086, 1076], ustr ''Inan'')]),
              (ustr ''Tense'', map_of [([1085, 1077, 1087, 1088, 1086, 1096], ustr ''Pres'')])],
           pos_cat = ustr ''POS'', case_cat = ustr ''Case'', number_cat = ustr ''Number'',
           gender_cat = ustr ''Gender'', animacy_cat = ustr ''Animacy'',
           tense_cat = ustr ''Tense'' \<rparr>"


text \<open>
  Records of the analyzer: words it has no candidate for, whitespace and punctuation
  (without the key \<^verbatim>\<open>analysis\<close>), and the streams of the texts \<open>a b. b a.\<close> and
  \<open>a 42. b.\<close> with the sentences of the latter and what \<open>process\<close> returns for it.
\<close>

definition rec_a :: MystemToken where
  "rec_a = \<lparr> mt_text = ustr ''a'', mt_analysis = Some [] \<rparr>"

definition rec_b :: MystemToken where
  "rec_b = \<lparr> mt_text = ustr ''b'', mt_analysis = Some [] \<rparr>"

definition rec_sp :: MystemToken where
  "rec_sp = \<lparr> mt_text = ustr '' '', mt_analysis = None \<rparr>"

definition rec_dot :: MystemToken where
  "rec_dot = \<lparr> mt_text = ustr ''.'', mt_analysis = None \<rparr>"

definition rec_dot_sp :: MystemToken where
  "rec_dot_sp = \<lparr> mt_text = ustr ''. '', mt_analysis = None \<rparr>"

definition rec_nl :: MystemToken where
  "rec_nl = \<lparr> mt_text = [10], mt_analysis = None \<rparr>"

definition stream_ab :: "MystemToken list" where
  "stream_ab = [rec_a, rec_sp, rec_b, rec_dot_sp, rec_b, rec_sp, rec_a, rec_dot, rec_nl]"


definition rec_42 :: MystemToken where
  "rec_42 = \<lparr> mt_text = ustr ''42'', mt_analysis = None \<rparr>"

definition sents_a42 :: "ustring list" where
  "sents_a42 = [ustr ''a 42.'', ustr ''b.'']"

definition stream_a42 :: "MystemToken list" where
  "stream_a42 = [rec_a, rec_sp, rec_42, rec_dot_sp, rec_b, rec_dot, rec_nl]"

definition out_a42 :: "ConlluSentence list" where
  "out_a42 =
     [\<lparr> sent_position = 0, sent_text = ustr ''a 42.'',
         sent_tokens =
           [\<lparr> tok_text = ustr ''a'',
               morphological_parameters =
                 MorphologicalTokenDTO_init (ustr ''a'') (ustr ''X'') [],
               position = 1 \<rparr>,
            \<lparr> tok_text = ustr ''42'',
               morphological_parameters =
                 MorphologicalTokenDTO_init (ustr ''42'') (ustr ''NUM'') [],
               position = 2 \<rparr>,
            \<lparr> tok_text = ustr ''.'',
               morphological_parameters =
                 MorphologicalTokenDTO_init (ustr ''.'') (ustr ''PUNCT'') [],
               position = 3 \<rparr>] \<rparr>,
      \<lparr> sent_position = 1, sent_text = ustr ''b.'',
         sent_tokens =
           [\<lparr> tok_text = ustr ''.'',
               morphological_parameters =
                 MorphologicalTokenDTO_init (ustr ''.'') (ustr ''PUNCT'') [],
               position = 1 \<rparr>] \<rparr>]"

section \<open>Properties\<close>

subsection \<open>Strings\<close>

lemma re_sub_class_filter: "re_sub_class cls s = filter (\<lambda>c. \<not> cls c) s"
  by (induction s) simp_all

lemma get_cleaned_filter:
  "get_cleaned U tok =
   filter (\<lambda>c. re_word U c \<or> re_space U c) (str_lower U (tok_text tok))"
  by (simp add: get_cleaned_def re_sub_class_filter)

lemma str_nat_digit: "n < 10 \<Longrightarrow> str_nat n = [48 + n]"
  by (simp add: str_nat.simps)

lemma str_int_0: "str_int 0 = [48]"
  by (simp add: str_int_def str_nat_digit)

lemma str_int_1: "str_int 1 = [49]"
  by (simp add: str_int_def str_nat_digit)

lemma str_int_2: "str_int 2 = [50]"
  by (simp add: str_int_def str_nat_digit)

subsection \<open>Rendering\<close>

text \<open>
  C10: a token that was just constructed has position 0 and the empty string as lemma,
  part of speech and tags, so its CONLL-U line, for either value of the flag, starts with
  the position field \<open>0\<close> and has empty lemma and part-of-speech fields.
\<close>

theorem fresh_token:
  "position (ConlluToken_init t) = 0 \<and>
   dto_lemma (morphological_parameters (ConlluToken_init t)) = [] \<and>
   dto_pos (morphological_parameters (ConlluToken_init t)) = [] \<and>
   dto_tags (morphological_parameters (ConlluToken_init t)) = [] \<and>
   get_conllu_text (ConlluToken_init t) include_morphological_tags =
     ustr ''0'' @ [9] @ t @ [9] @ [] @ [9] @ [] @ [9] @ ustr ''_'' @ [9] @ ustr ''_'' @ [9] @
     ustr ''0'' @ [9] @ ustr ''root'' @ [9] @ ustr ''_'' @ [9] @ ustr ''_''"
  by (simp add: ConlluToken_init_def MorphologicalTokenDTO_default_def
      MorphologicalTokenDTO_init_def get_conllu_text_def str_int_0 ustr_def)

theorem fresh_token_witness:
  "get_conllu_text (ConlluToken_init (ustr ''ab'')) True =
     [48, 9, 97, 98, 9, 9, 9, 95, 9, 95, 9, 48, 9, 114, 111, 111, 116, 9, 95, 9, 95]"
  using fresh_token [of "ustr ''ab''" True] by (simp add: ustr_def)

text \<open>
  C8: the CONLL-U line of a token is the ten fields position, surface text, lemma, part of
  speech, \<open>_\<close>, the features or \<open>_\<close> (when the flag is false or the features are
  empty), \<open>0\<close>, \<open>root\<close>, \<open>_\<close>, \<open>_\<close>, joined by tabs (9); the block of a sentence is
  the line \<open># sent_id = \<close> with the position, the line \<open># text = \<close> with the original
  text, the lines of the tokens joined by newlines (10), and a newline.
\<close>

theorem conllu_text_format:
  "get_conllu_text tok include_morphological_tags =
     str_int (position tok) @ [9] @ tok_text tok @ [9] @
     dto_lemma (morphological_parameters tok) @ [9] @
     dto_pos (morphological_parameters tok) @ [9] @ ustr ''_'' @ [9] @
     (if include_morphological_tags \<and> dto_tags (morphological_parameters tok) \<noteq> []
      then dto_tags (morphological_parameters tok) else ustr ''_'') @ [9] @
     ustr ''0'' @ [9] @ ustr ''root'' @ [9] @ ustr ''_'' @ [9] @ ustr ''_'' \<and>
   sentence_get_conllu_text s include_morphological_tags =
     ustr ''# sent_id = '' @ str_int (sent_position s) @ [10] @
     ustr ''# text = '' @ sent_text s @ [10] @
     str_join [10] (map (\<lambda>t. get_conllu_text t include_morphological_tags) (sent_tokens s)) @
     [10]"
  by (simp add: get_conllu_text_def sentence_get_conllu_text_def format_tokens_def Let_def)

theorem conllu_text_format_witness:
  "get_conllu_text tok_cat False =
     ustr ''1'' @ [9] @ ustr ''Cat'' @ [9] @ ustr ''cat'' @ [9] @ ustr ''NOUN'' @ [9] @
     ustr ''_'' @ [9] @ ustr ''_'' @ [9] @ ustr ''0'' @ [9] @ ustr ''root'' @ [9] @
     ustr ''_'' @ [9] @ ustr ''_'' \<and>
   sentence_get_conllu_text sent_cat True =
     ustr ''# sent_id = 0'' @ [10] @ ustr ''# text = Cat.'' @ [10] @
     ustr ''1'' @ [9] @ ustr ''Cat'' @ [9] @ ustr ''cat'' @ [9] @ ustr ''NOUN'' @ [9] @
     ustr ''_'' @ [9] @ ustr ''Case=Nom'' @ [9] @ ustr ''0'' @ [9] @ ustr ''root'' @ [9] @
     ustr ''_'' @ [9] @ ustr ''_'' @ [10] @
     ustr ''2'' @ [9] @ ustr ''.'' @ [9] @ ustr ''.'' @ [9] @ ustr ''PUNCT'' @ [9] @
     ustr ''_'' @ [9] @ ustr ''_'' @ [9] @ ustr ''0'' @ [9] @ ustr ''root'' @ [9] @
     ustr ''_'' @ [9] @ ustr ''_'' @ [10]"
  using conllu_text_format [of tok_cat False sent_cat]
    conllu_text_format [of tok_cat True sent_cat]
    conllu_text_format [of tok_dot True sent_cat]
  by (simp add: tok_cat_def tok_dot_def sent_cat_def MorphologicalTokenDTO_init_def
      str_int_0 str_int_1 str_int_2 ustr_def)

subsection \<open>Cleaning\<close>

lemma ru_simps:
  "isalnum ru c = (ru_letter c \<or> ascii_digit c)"
  "isspace ru c = ((9 \<le> c \<and> c \<le> 13) \<or> (28 \<le> c \<and> c \<le> 32))"
  "isdigit ru c = ascii_digit c"
  "tolower_full ru c = ru_tolower c"
  by (simp_all add: ru_def)

lemmas ru_class_defs =
  ru_letter_def ascii_upper_def ascii_lower_def ascii_digit_def cyr_upper_def cyr_lower_def
  ru_tolower_def re_word_def re_space_def

lemma str_lower_ru_a_b: "str_lower ru (ustr ''a_b'') = ustr ''a_b''"
  by (simp add: str_lower_def ustr_def ru_simps ru_class_defs)


lemma str_lower_ru_mixed: "str_lower ru (ustr ''A_b, C!'') = ustr ''a_b, c!''"
  by (simp add: str_lower_def ustr_def ru_simps ru_class_defs)

lemma get_cleaned_ru_mixed: "get_cleaned ru tok_mixed = ustr ''a_b c''"
  unfolding get_cleaned_filter tok_mixed_def ConlluToken_init_def
  by (simp add: str_lower_ru_mixed) (simp add: ustr_def ru_simps ru_class_defs)

text \<open>
  C7, as amended: \<open>get_cleaned\<close> returns the surface text lowercased, with every
  character removed that is neither alphanumeric, nor the underscore, nor whitespace;
  the characters kept stay in their order.
\<close>

theorem get_cleaned_word_space:
  "get_cleaned U tok =
   filter (\<lambda>c. isalnum U c \<or> c = 95 \<or> isspace U c) (str_lower U (tok_text tok))"
  by (simp add: get_cleaned_filter re_word_def re_space_def disj_assoc)

theorem get_cleaned_word_space_witness:
  "get_cleaned ru tok_mixed = ustr ''a_b c'' \<and>
   filter (\<lambda>c. isalnum ru c \<or> c = 95 \<or> isspace ru c) (str_lower ru (ustr ''A_b, C!'')) =
     ustr ''a_b c''"
  using get_cleaned_word_space [of ru tok_mixed] get_cleaned_ru_mixed
  by (simp add: tok_mixed_def ConlluToken_init_def)

text \<open>
  C7 as stated fails: the underscore is neither alphanumeric nor whitespace, and
  \<open>get_cleaned\<close> keeps it, since the class \<^verbatim>\<open>\w\<close> of the pattern contains it.
\<close>

theorem get_cleaned_keeps_underscore:
  "get_cleaned ru (ConlluToken_init (ustr ''a_b'')) = ustr ''a_b'' \<and>
   spec_cleaned ru (ustr ''a_b'') = ustr ''ab'' \<and>
   get_cleaned ru (ConlluToken_init (ustr ''a_b'')) \<noteq> spec_cleaned ru (ustr ''a_b'')"
proof -
  have g: "get_cleaned ru (ConlluToken_init (ustr ''a_b'')) = ustr ''a_b''"
    unfolding get_cleaned_filter ConlluToken_init_def
    by (simp add: str_lower_ru_a_b) (simp add: ustr_def ru_simps ru_class_defs)
  have s: "spec_cleaned ru (ustr ''a_b'') = ustr ''ab''"
    unfolding spec_cleaned_def str_lower_ru_a_b
    by (simp add: ustr_def ru_simps ru_class_defs)
  have "ustr ''a_b'' \<noteq> ustr ''ab''" by (simp add: ustr_def)
  with g s show ?thesis by simp
qed















subsection \<open>The tag converter\<close>

















subsection \<open>The alignment\<close>

lemma collect_skip:
  "\<not> str_contains sentence (mt_text token) \<Longrightarrow>
   collect U sentence (token # result) tokens = collect U sentence result tokens"
  by simp

lemma collect_split:
  "\<exists>consumed matched.
     result = consumed @ snd (collect U sentence result tokens) \<and>
     fst (collect U sentence result tokens) = tokens @ matched \<and>
     subseq matched consumed \<and>
     (\<forall>t \<in> set matched. any_isalnum U (mt_text t) \<and> str_contains sentence (mt_text t))"
proof (induction result arbitrary: tokens)
  case Nil
  show ?case by simp
next
  case (Cons token result)
  show ?case
  proof (cases "str_contains sentence (mt_text token)")
    case False
    from Cons [of tokens] obtain consumed matched where
      h: "result = consumed @ snd (collect U sentence result tokens)"
         "fst (collect U sentence result tokens) = tokens @ matched"
         "subseq matched consumed"
         "\<forall>t \<in> set matched. any_isalnum U (mt_text t) \<and> str_contains sentence (mt_text t)"
      by blast
    have "token # result = (token # consumed) @ snd (collect U sentence (token # result) tokens)"
      using False h(1) by simp
    moreover have "fst (collect U sentence (token # result) tokens) = tokens @ matched"
      using False h(2) by simp
    moreover have "subseq matched (token # consumed)"
      using h(3) by (rule list_emb_Cons)
    ultimately show ?thesis using h(4) by blast
  next
    case True
    let ?tokens' = "if any_isalnum U (mt_text token) then tokens @ [token] else tokens"
    let ?m = "if any_isalnum U (mt_text token) then [token] else []"
    have t': "?tokens' = tokens @ ?m" by simp
    have m_sub: "subseq ?m [token]" by simp
    have m_ok: "\<forall>t \<in> set ?m. any_isalnum U (mt_text t) \<and> str_contains sentence (mt_text t)"
      using True by simp
    show ?thesis
    proof (cases "any_isalnum U (re_sub_first (mt_text token) sentence)")
      case False
      have c: "collect U sentence (token # result) tokens = (?tokens', result)"
        using True False by (simp add: Let_def)
      have "token # result = [token] @ snd (collect U sentence (token # result) tokens)"
        unfolding c by simp
      moreover have "fst (collect U sentence (token # result) tokens) = tokens @ ?m"
        unfolding c using t' by simp
      ultimately show ?thesis using m_sub m_ok by blast
    next
      case alnum: True
      have c: "collect U sentence (token # result) tokens = collect U sentence result ?tokens'"
        using True alnum by (simp add: Let_def)
      from Cons [of ?tokens'] obtain consumed matched where
        h: "result = consumed @ snd (collect U sentence result ?tokens')"
           "fst (collect U sentence result ?tokens') = ?tokens' @ matched"
           "subseq matched consumed"
           "\<forall>t \<in> set matched. any_isalnum U (mt_text t) \<and> str_contains sentence (mt_text t)"
        by blast
      have "token # result = (token # consumed) @ snd (collect U sentence (token # result) tokens)"
        unfolding c using h(1) by simp
      moreover have "fst (collect U sentence (token # result) tokens) = tokens @ (?m @ matched)"
      proof -
        have "fst (collect U sentence (token # result) tokens) = ?tokens' @ matched"
          unfolding c by (rule h(2))
        also have "\<dots> = tokens @ (?m @ matched)"
          by (cases "any_isalnum U (mt_text token)") simp_all
        finally show ?thesis .
      qed
      moreover have "subseq (?m @ matched) (token # consumed)"
        using list_emb_append_mono [OF m_sub h(3)] by simp
      moreover have "\<forall>t \<in> set (?m @ matched).
          any_isalnum U (mt_text t) \<and> str_contains sentence (mt_text t)"
        using m_ok h(4) by auto
      ultimately show ?thesis by blast
    qed
  qed
qed

lemma collect_suffix: "suffix (snd (collect U sentence result tokens)) result"
  using collect_split [of result U sentence tokens] unfolding suffix_def by metis

lemma groups_length: "length (groups U sentences result) = length sentences"
  by (induction sentences arbitrary: result) (simp_all split: prod.splits)

lemma groups_exhausted: "groups U sentences [] = replicate (length sentences) [terminal]"
  by (induction sentences) simp_all

lemma groups_subseq: "subseq (concat (map butlast (groups U sentences result))) result"
proof (induction sentences arbitrary: result)
  case Nil
  show ?case by simp
next
  case (Cons sentence sentences)
  obtain consumed matched where
    h: "result = consumed @ snd (collect U sentence result [])"
       "fst (collect U sentence result []) = [] @ matched"
       "subseq matched consumed"
    using collect_split [of result U sentence "[]"] by blast
  obtain tokens result' where c: "collect U sentence result [] = (tokens, result')"
    by (cases "collect U sentence result []")
  from h c have r: "result = consumed @ result'" and m: "tokens = matched" by simp_all
  have "subseq (matched @ concat (map butlast (groups U sentences result'))) (consumed @ result')"
    using h(3) Cons [of result'] by (rule list_emb_append_mono)
  then show ?case using c r m by simp
qed

lemma groups_terminal:
  "g \<in> set (groups U sentences result) \<Longrightarrow>
   \<exists>matched. g = matched @ [terminal] \<and> set matched \<subseteq> set result \<and>
     (\<forall>t \<in> set matched. any_isalnum U (mt_text t))"
proof (induction sentences arbitrary: result)
  case Nil
  then show ?case by simp
next
  case (Cons sentence sentences)
  obtain consumed matched where
    h: "result = consumed @ snd (collect U sentence result [])"
       "fst (collect U sentence result []) = [] @ matched"
       "subseq matched consumed"
       "\<forall>t \<in> set matched. any_isalnum U (mt_text t) \<and> str_contains sentence (mt_text t)"
    using collect_split [of result U sentence "[]"] by blast
  obtain tokens result' where c: "collect U sentence result [] = (tokens, result')"
    by (cases "collect U sentence result []")
  from h c have r: "result = consumed @ result'" and m: "tokens = matched" by simp_all
  from Cons.prems c consider "g = tokens @ [terminal]" | "g \<in> set (groups U sentences result')"
    by auto
  then show ?case
  proof cases
    case 1
    have "set matched \<subseteq> set consumed" using h(3) by (auto dest: list_emb_set)
    then have "set matched \<subseteq> set result" using r by auto
    then show ?thesis using 1 m h(4) by blast
  next
    case 2
    from Cons.IH [OF 2] obtain ma where
      "g = ma @ [terminal]" "set ma \<subseteq> set result'" "\<forall>t \<in> set ma. any_isalnum U (mt_text t)"
      by blast
    then show ?thesis using r by auto
  qed
qed


subsection \<open>Building the tokens\<close>

lemma make_tokens_Cons_Inr:
  assumes "make_tokens U C i (token # tokens) = Inr cts"
  obtains m rest where "morphology U C token = Inr m"
    and "make_tokens U C (i + 1) tokens = Inr rest"
    and "cts = set_morphological_parameters
                 ((ConlluToken_init (mt_text token)) \<lparr> position := i \<rparr>) m # rest"
  using assms by (auto split: sum.splits)

lemma make_tokens_shape:
  "make_tokens U C i tokens = Inr cts \<Longrightarrow>
   length cts = length tokens \<and> map tok_text cts = map mt_text tokens \<and>
   (\<forall>k < length cts. position (cts ! k) = i + int k)"
proof (induction tokens arbitrary: i cts)
  case Nil
  then show ?case by simp
next
  case (Cons token tokens)
  from Cons.prems obtain m rest where
    m: "morphology U C token = Inr m" and
    r: "make_tokens U C (i + 1) tokens = Inr rest" and
    c: "cts = set_morphological_parameters
              ((ConlluToken_init (mt_text token)) \<lparr> position := i \<rparr>) m # rest"
    by (rule make_tokens_Cons_Inr)
  from Cons.IH [OF r] have
    l: "length rest = length tokens" and t: "map tok_text rest = map mt_text tokens" and
    p: "\<forall>k < length rest. position (rest ! k) = i + 1 + int k"
    by simp_all
  have "\<forall>k < length cts. position (cts ! k) = i + int k"
  proof (intro allI impI)
    fix k assume k: "k < length cts"
    show "position (cts ! k) = i + int k"
    proof (cases k)
      case 0
      then show ?thesis
        by (simp add: c set_morphological_parameters_def ConlluToken_init_def)
    next
      case (Suc j)
      with k c have "j < length rest" by simp
      with p have "position (rest ! j) = i + 1 + int j" by blast
      then show ?thesis using Suc c by simp
    qed
  qed
  then show ?case
    using l t c by (simp add: set_morphological_parameters_def ConlluToken_init_def)
qed

lemma morphology_no_analysis:
  "mt_analysis token = None \<Longrightarrow> morphology U C token = Inr m \<Longrightarrow>
   dto_lemma m = mt_text token \<and> dto_tags m = []"
  by (auto simp: morphology_def MorphologicalTokenDTO_init_def)

lemma make_tokens_last:
  "make_tokens U C i tokens = Inr cts \<Longrightarrow> tokens \<noteq> [] \<Longrightarrow> mt_analysis (last tokens) = None \<Longrightarrow>
   cts \<noteq> [] \<and> tok_text (last cts) = mt_text (last tokens) \<and>
   dto_lemma (morphological_parameters (last cts)) = mt_text (last tokens) \<and>
   dto_tags (morphological_parameters (last cts)) = []"
proof (induction tokens arbitrary: i cts)
  case Nil
  then show ?case by simp
next
  case (Cons token tokens)
  from Cons.prems(1) obtain m rest where
    m: "morphology U C token = Inr m" and
    r: "make_tokens U C (i + 1) tokens = Inr rest" and
    c: "cts = set_morphological_parameters
              ((ConlluToken_init (mt_text token)) \<lparr> position := i \<rparr>) m # rest"
    by (rule make_tokens_Cons_Inr)
  show ?case
  proof (cases "tokens = []")
    case True
    with r have "rest = []" by simp
    moreover from True Cons.prems(3) have "mt_analysis token = None" by simp
    ultimately show ?thesis
      using morphology_no_analysis [OF _ m] True c
      by (simp add: set_morphological_parameters_def ConlluToken_init_def)
  next
    case False
    with Cons.prems(3) have "mt_analysis (last tokens) = None" by simp
    from Cons.IH [OF r False this] show ?thesis using False c by simp
  qed
qed



lemma process_sentences_Cons_Inr:
  assumes "process_sentences U C i (sentence # sentences) result = Inr cs"
  obtains cts rest where
    "make_tokens U C 1 (fst (collect U sentence result []) @ [terminal]) = Inr cts"
    and "process_sentences U C (i + 1) sentences (snd (collect U sentence result [])) = Inr rest"
    and "cs = \<lparr> sent_position = i, sent_text = sentence, sent_tokens = cts \<rparr> # rest"
  using assms by (auto split: prod.splits sum.splits)

lemma groups_Cons:
  "groups U (sentence # sentences) result =
   (fst (collect U sentence result []) @ [terminal]) #
   groups U sentences (snd (collect U sentence result []))"
  by (simp split: prod.splits)

lemma process_sentences_groups:
  "process_sentences U C i sentences result = Inr cs \<Longrightarrow>
   list_all2 (\<lambda>s g. make_tokens U C 1 g = Inr (sent_tokens s)) cs (groups U sentences result)"
proof (induction sentences arbitrary: i result cs)
  case Nil
  then show ?case by simp
next
  case (Cons sentence sentences)
  from Cons.prems obtain cts rest where
    m: "make_tokens U C 1 (fst (collect U sentence result []) @ [terminal]) = Inr cts" and
    r: "process_sentences U C (i + 1) sentences (snd (collect U sentence result [])) = Inr rest" and
    c: "cs = \<lparr> sent_position = i, sent_text = sentence, sent_tokens = cts \<rparr> # rest"
    by (rule process_sentences_Cons_Inr)
  from Cons.IH [OF r] m c show ?case
    unfolding groups_Cons by simp
qed


subsection \<open>The claims on the alignment\<close>

lemmas ru_eval =
  ustr_def any_isalnum_def ru_simps ru_class_defs rec_a_def rec_b_def rec_sp_def rec_dot_def
  rec_dot_sp_def rec_nl_def terminal_def Let_def

lemma collect_ab:
  "collect ru (ustr ''a b.'') stream_ab [] = ([rec_a, rec_b, rec_b, rec_a], [])"
  by (simp add: stream_ab_def ru_eval)

lemma collect_ba_exhausted: "collect ru (ustr ''b a.'') [] [] = ([], [])"
  by simp

lemma spec_collect_ab:
  "spec_collect ru (ustr ''a b.'') stream_ab [] =
   ([rec_a, rec_b], [rec_dot_sp, rec_b, rec_sp, rec_a, rec_dot, rec_nl])"
  by (simp add: stream_ab_def ru_eval)

text \<open>
  C2: the loop removes each record's text from the sentence itself, not from a running
  copy, so the remainder it tests is the sentence without one record. For the sentences
  \<open>a b.\<close> and \<open>b a.\<close> the loop of the first sentence does not stop after \<open>b\<close>, where
  the running remainder \<open>.\<close> has no alphanumeric character left: it reads the stream to
  its end and takes the records of the second sentence too, which is left with its
  terminal record alone. \<open>spec_collect\<close>, with the running copy, stops after \<open>b\<close>.
\<close>

theorem collect_never_stops_on_two_words:
  "collect ru (ustr ''a b.'') stream_ab [] = ([rec_a, rec_b, rec_b, rec_a], []) \<and>
   spec_collect ru (ustr ''a b.'') stream_ab [] =
     ([rec_a, rec_b], [rec_dot_sp, rec_b, rec_sp, rec_a, rec_dot, rec_nl]) \<and>
   groups ru [ustr ''a b.'', ustr ''b a.''] stream_ab =
     [[rec_a, rec_b, rec_b, rec_a, terminal], [terminal]]"
  using collect_ab spec_collect_ab by simp

lemma collect_a_dot: "collect ru (ustr ''a.'') [rec_b, rec_a] [] = ([rec_a], [])"
  by (simp add: ru_eval)

text \<open>
  C1 as stated fails: the record \<open>b\<close> does not occur in the sentence \<open>a.\<close>, it is
  skipped there, and it is not in what is left of the stream for the sentence \<open>b.\<close>,
  whose group holds the terminal record alone.
\<close>

theorem skipped_record_is_lost:
  "\<not> str_contains (ustr ''a.'') (mt_text rec_b) \<and>
   str_contains (ustr ''b.'') (mt_text rec_b) \<and>
   rec_b \<notin> set (snd (collect ru (ustr ''a.'') [rec_b, rec_a] [])) \<and>
   groups ru [ustr ''a.'', ustr ''b.''] [rec_b, rec_a] = [[rec_a, terminal], [terminal]]"
  using collect_a_dot by (simp add: ru_eval)

text \<open>
  C1, as amended: a record whose surface text does not occur in the current sentence is
  skipped and consumed: the alignment goes on as if the record were not in the stream, so
  no later sentence sees it. The stream is read once, left to right, and shared: what a
  sentence leaves is a suffix of what it was given, the next sentence starts there, and the
  records of all groups, in order and without the terminal records, are a subsequence of
  the stream.
\<close>

theorem stream_consumed_once:
  "(\<not> str_contains sentence (mt_text token) \<longrightarrow>
      collect U sentence (token # result) tokens = collect U sentence result tokens \<and>
      groups U (sentence # sentences) (token # result) =
        groups U (sentence # sentences) result) \<and>
   suffix (snd (collect U sentence result tokens)) result \<and>
   groups U (sentence # sentences) result =
     (fst (collect U sentence result []) @ [terminal]) #
     groups U sentences (snd (collect U sentence result [])) \<and>
   subseq (concat (map butlast (groups U sentences result))) result"
  using collect_suffix groups_subseq groups_Cons by simp

theorem stream_consumed_once_witness:
  "\<not> str_contains (ustr ''a.'') (mt_text rec_b) \<and>
   collect ru (ustr ''a.'') (rec_b # [rec_a]) [] = collect ru (ustr ''a.'') [rec_a] [] \<and>
   groups ru (ustr ''a.'' # [ustr ''b.'']) (rec_b # [rec_a]) =
     groups ru (ustr ''a.'' # [ustr ''b.'']) [rec_a] \<and>
   suffix (snd (collect ru (ustr ''a.'') [rec_a] [])) [rec_a] \<and>
   subseq (concat (map butlast (groups ru [ustr ''b.''] [rec_a]))) [rec_a]"
proof -
  have n: "\<not> str_contains (ustr ''a.'') (mt_text rec_b)"
    by (simp add: ru_eval)
  from stream_consumed_once [of "ustr ''a.''" rec_b ru "[rec_a]" "[]" "[ustr ''b.'']"] n
  show ?thesis by simp
qed












lemma process_Inr_tokens:
  assumes "process U C sentences result = Inr cs" and "s \<in> set cs"
  shows "\<exists>g \<in> set (groups U sentences result). make_tokens U C 1 g = Inr (sent_tokens s)"
proof -
  from assms(1) have
    "list_all2 (\<lambda>s g. make_tokens U C 1 g = Inr (sent_tokens s)) cs (groups U sentences result)"
    unfolding process_def by (rule process_sentences_groups)
  then have n: "length cs = length (groups U sentences result)" and
    a: "\<forall>i < length cs.
          make_tokens U C 1 (groups U sentences result ! i) = Inr (sent_tokens (cs ! i))"
    by (simp_all add: list_all2_conv_all_nth)
  from assms(2) obtain i where i: "i < length cs" and s: "s = cs ! i"
    by (auto simp: in_set_conv_nth)
  from i n have "groups U sentences result ! i \<in> set (groups U sentences result)"
    by simp
  with a i s show ?thesis by blast
qed

lemma process_Inr_length:
  "process U C sentences result = Inr cs \<Longrightarrow> length cs = length sentences"
proof -
  assume "process U C sentences result = Inr cs"
  then have
    "list_all2 (\<lambda>s g. make_tokens U C 1 g = Inr (sent_tokens s)) cs (groups U sentences result)"
    unfolding process_def by (rule process_sentences_groups)
  then have "length cs = length (groups U sentences result)"
    by (rule list_all2_lengthD)
  then show ?thesis by (simp add: groups_length)
qed

text \<open>
  C4: every group of the alignment is records of the stream followed by exactly the
  terminal record, also when the stream is exhausted (then the group is the terminal
  record alone); and when \<open>process\<close> returns sentences, there is one for each input
  sentence, its token list is not empty, and its last token has the period as surface text
  and lemma and no features.
\<close>

theorem sentences_end_with_terminal:
  "length (groups U sentences result) = length sentences \<and>
   (\<forall>g \<in> set (groups U sentences result).
      \<exists>matched. g = matched @ [terminal] \<and> set matched \<subseteq> set result \<and>
        (\<forall>t \<in> set matched. any_isalnum U (mt_text t))) \<and>
   groups U sentences [] = replicate (length sentences) [terminal] \<and>
   (process U C sentences result = Inr cs \<longrightarrow>
      length cs = length sentences \<and>
      (\<forall>s \<in> set cs.
         sent_tokens s \<noteq> [] \<and>
         tok_text (last (sent_tokens s)) = ustr ''.'' \<and>
         dto_lemma (morphological_parameters (last (sent_tokens s))) = ustr ''.'' \<and>
         dto_tags (morphological_parameters (last (sent_tokens s))) = [] \<and>
         (\<exists>g \<in> set (groups U sentences result).
            map tok_text (sent_tokens s) = map mt_text g)))"
proof -
  have a: "\<forall>g \<in> set (groups U sentences result).
      \<exists>matched. g = matched @ [terminal] \<and> set matched \<subseteq> set result \<and>
        (\<forall>t \<in> set matched. any_isalnum U (mt_text t))"
    using groups_terminal by blast
  have b: "process U C sentences result = Inr cs \<longrightarrow>
      length cs = length sentences \<and>
      (\<forall>s \<in> set cs.
         sent_tokens s \<noteq> [] \<and>
         tok_text (last (sent_tokens s)) = ustr ''.'' \<and>
         dto_lemma (morphological_parameters (last (sent_tokens s))) = ustr ''.'' \<and>
         dto_tags (morphological_parameters (last (sent_tokens s))) = [] \<and>
         (\<exists>g \<in> set (groups U sentences result).
            map tok_text (sent_tokens s) = map mt_text g))"
  proof (intro impI conjI ballI)
    assume p: "process U C sentences result = Inr cs"
    then show "length cs = length sentences" by (rule process_Inr_length)
    fix s assume s: "s \<in> set cs"
    from process_Inr_tokens [OF p s] obtain g where
      g: "g \<in> set (groups U sentences result)" and
      m: "make_tokens U C 1 g = Inr (sent_tokens s)"
      by blast
    from groups_terminal [OF g] obtain matched where gm: "g = matched @ [terminal]"
      by blast
    have ne: "g \<noteq> []" and l: "last g = terminal" using gm by simp_all
    have an: "mt_analysis (last g) = None" by (simp add: l terminal_def)
    have tx: "mt_text (last g) = ustr ''.''" by (simp add: l terminal_def)
    from make_tokens_last [OF m ne an] tx
    show "sent_tokens s \<noteq> []"
      and "tok_text (last (sent_tokens s)) = ustr ''.''"
      and "dto_lemma (morphological_parameters (last (sent_tokens s))) = ustr ''.''"
      and "dto_tags (morphological_parameters (last (sent_tokens s))) = []"
      by simp_all
    from make_tokens_shape [OF m] g
    show "\<exists>g \<in> set (groups U sentences result). map tok_text (sent_tokens s) = map mt_text g"
      by blast
  qed
  show ?thesis
    using a b groups_length groups_exhausted by blast
qed

text \<open>
  C5: in every sentence that \<open>process\<close> returns, the token at index \<open>i\<close> (counted from
  0) has the position \<open>i + 1\<close>: positions start at 1 and go up by 1 without a gap.
\<close>

theorem positions_count_from_one:
  assumes "process U C sentences result = Inr cs"
  shows "\<forall>s \<in> set cs. \<forall>i < length (sent_tokens s).
           position (sent_tokens s ! i) = int i + 1"
proof (intro ballI allI impI)
  fix s i assume s: "s \<in> set cs" and i: "i < length (sent_tokens s)"
  from process_Inr_tokens [OF assms s] obtain g where
    "make_tokens U C 1 g = Inr (sent_tokens s)" by blast
  from make_tokens_shape [OF this] i
  show "position (sent_tokens s ! i) = int i + 1" by simp
qed


lemma collect_a42:
  "collect ru (ustr ''a 42.'') stream_a42 [] = ([rec_a, rec_42], [])"
  by (simp add: stream_a42_def rec_42_def ru_eval)

lemma groups_a42:
  "groups ru sents_a42 stream_a42 = [[rec_a, rec_42, terminal], [terminal]]"
  by (simp add: sents_a42_def collect_a42)

lemma make_tokens_a42:
  "make_tokens ru C0 1 [rec_a, rec_42, terminal] = Inr (sent_tokens (out_a42 ! 0))"
  by (simp add: out_a42_def morphology_def rec_42_def str_strip_def str_isdigit_def
      set_morphological_parameters_def ConlluToken_init_def ru_eval)

lemma make_tokens_terminal:
  "make_tokens ru C0 1 [terminal] = Inr (sent_tokens (out_a42 ! 1))"
  by (simp add: out_a42_def morphology_def str_strip_def str_isdigit_def
      set_morphological_parameters_def ConlluToken_init_def ru_eval)

lemma process_a42: "process ru C0 sents_a42 stream_a42 = Inr out_a42"
proof -
  have "process ru C0 sents_a42 stream_a42 =
        Inr [\<lparr> sent_position = 0, sent_text = ustr ''a 42.'',
                sent_tokens = sent_tokens (out_a42 ! 0) \<rparr>,
             \<lparr> sent_position = 1, sent_text = ustr ''b.'',
                sent_tokens = sent_tokens (out_a42 ! 1) \<rparr>]"
    by (simp del: make_tokens.simps
        add: process_def sents_a42_def collect_a42 make_tokens_a42 make_tokens_terminal)
  also have "\<dots> = Inr out_a42"
    by (simp add: out_a42_def)
  finally show ?thesis .
qed

theorem sentences_end_with_terminal_witness:
  "process ru C0 sents_a42 stream_a42 = Inr out_a42 \<and>
   length out_a42 = length sents_a42 \<and>
   sent_tokens (out_a42 ! 1) \<noteq> [] \<and>
   tok_text (last (sent_tokens (out_a42 ! 1))) = ustr ''.'' \<and>
   dto_lemma (morphological_parameters (last (sent_tokens (out_a42 ! 1)))) = ustr ''.'' \<and>
   dto_tags (morphological_parameters (last (sent_tokens (out_a42 ! 1)))) = [] \<and>
   groups ru sents_a42 stream_a42 = [[rec_a, rec_42, terminal], [terminal]] \<and>
   groups ru sents_a42 [] = replicate (length sents_a42) [terminal]"
proof -
  have m: "out_a42 ! 1 \<in> set out_a42"
    by (simp add: out_a42_def)
  from sentences_end_with_terminal [of ru sents_a42 stream_a42 C0 out_a42] process_a42 m
  show ?thesis
    using groups_a42 by blast
qed

theorem positions_count_from_one_witness:
  "process ru C0 sents_a42 stream_a42 = Inr out_a42 \<and>
   position (sent_tokens (out_a42 ! 0) ! 0) = 1 \<and>
   position (sent_tokens (out_a42 ! 0) ! 1) = 2 \<and>
   position (sent_tokens (out_a42 ! 0) ! 2) = 3 \<and>
   position (sent_tokens (out_a42 ! 1) ! 0) = 1"
proof -
  have m: "out_a42 ! 0 \<in> set out_a42" "out_a42 ! 1 \<in> set out_a42"
    by (simp_all add: out_a42_def)
  have l: "length (sent_tokens (out_a42 ! 0)) = 3" "length (sent_tokens (out_a42 ! 1)) = 1"
    by (simp_all add: out_a42_def)
  note p = positions_count_from_one [OF process_a42]
  from p m(1) l(1) have
    "position (sent_tokens (out_a42 ! 0) ! 0) = int 0 + 1"
    "position (sent_tokens (out_a42 ! 0) ! 1) = int 1 + 1"
    "position (sent_tokens (out_a42 ! 0) ! 2) = int 2 + 1"
    by simp_all
  moreover from p m(2) l(2) have "position (sent_tokens (out_a42 ! 1) ! 0) = int 0 + 1"
    by simp
  ultimately show ?thesis using process_a42 by simp
qed

end
